theory Spec2Isabelle
  imports Main
begin

section \<open>generate\_mask.py: the orchestrator of the knee-MRI segmentation pipeline\<close>

text \<open>
  The program is sequential glue around four collaborator modules (\<open>utils\<close>,
  \<open>models\<close>, \<open>im_utils\<close>, \<open>dess_utils\<close>) and the operating system. The model
  below follows \<^verbatim>\<open>generate_mask.py\<close> line by line:
  \<^item> exceptions are values of the type \<open>error\<close>, and every function returns the
    world it leaves behind also when it raises;
  \<^item> the world holds what the orchestrator can observe or change: the directories and
    regular files of the file system, the process-wide configuration
    (\<open>os.environ['CUDA_VISIBLE_DEVICES']\<close>, \<open>models.BATCH_SIZE\<close>) and a
    chronological trace of the calls that leave the orchestrator;
  \<^item> the collaborator modules are not part of the file. Their functions and constants
    are the fields of the record \<open>services\<close>, a parameter of every definition; each
    function may raise (\<open>Inl\<close>) or return (\<open>Inr\<close>).
\<close>

subsection \<open>Data\<close>

text \<open>A numpy array as far as the orchestrator looks at it: its shape and its entries.\<close>

record 'a volume =
  shape :: "nat list"
  voxels :: "'a list"

datatype error =
    ValueError string
  | NotADirectoryError string
  | TypeError string
  | AssertionError
  | IndexError
  | KeyError string
  | FileExistsError string
  | PermissionError string
  | OSError string
  | ServiceError string

text \<open>
  The \<open>ValueError\<close> and the \<open>NotADirectoryError\<close> that the program raises itself carry
  their message; an error of the operating system carries the path that was given to the
  call, its message is not modelled.
\<close>

text \<open>The calls that leave the orchestrator, in the order in which they are made.\<close>

datatype ('a, 'b) event =
    Print string
  | MakeDirs string
  | LoadDicom string "string option"
  | Segment "'a volume" string
  | Write3d string "'b volume"

text \<open>
  \<open>dirs\<close> and \<open>files\<close> are the paths that name a directory and a regular file.
  \<open>makedirs_refusal\<close> is the answer of the operating system to the creation of a
  directory for reasons that the file system of the model does not show (permissions, a
  read-only file system, a full disk): the error it raises, or \<open>None\<close>.
\<close>

record ('a, 'b) world =
  dirs :: "string set"
  files :: "string set"
  CUDA_VISIBLE_DEVICES :: "string option"
  BATCH_SIZE :: "int option"
  makedirs_refusal :: "string \<Rightarrow> error option"
  trace :: "('a, 'b) event list"

text \<open>
  The collaborators. \<open>'a\<close> is the voxel type of a volume, \<open>'b\<close> that of a mask,
  \<open>'r\<close> the reference DICOM metadata, \<open>'m\<close> a T2 map and \<open>'s\<close> a T2 summary.
  \<open>write_3d\<close> returns the exception it raises, if any.
\<close>

record ('a, 'b, 'r, 'm, 's) services =
  FEMORAL_CARTILAGE_STR :: string
  TIBIAL_CARTILAGE_STR :: string
  MENISCUS_STR :: string
  PATELLAR_CARTILAGE_STR :: string
  NUM_ECHOS :: int
  load_dicom :: "string \<Rightarrow> string option \<Rightarrow> error + ('a volume \<times> 'r)"
  split_volume :: "'a volume \<Rightarrow> int \<Rightarrow> error + 'a volume list"
  whiten_volume :: "'a volume \<Rightarrow> error + 'a volume"
  models_generate_mask :: "'a volume \<Rightarrow> string \<Rightarrow> error + 'b volume"
  write_3d :: "string \<Rightarrow> 'b volume \<Rightarrow> error option"
  calc_dess_t2_map :: "'a volume \<Rightarrow> 'r \<Rightarrow> error + 'm"
  get_tissue_t2 :: "'m \<Rightarrow> 'b volume \<Rightarrow> string \<Rightarrow> error + 's"

text \<open>
  The namespace that \<open>parser.parse_args()\<close> returns. \<open>--dicom\<close> has \<open>nargs=1\<close>:
  a one-element list, or \<open>None\<close> when the flag is absent. \<open>--save\<close>, \<open>--ext\<close>,
  \<open>--gpu\<close> and \<open>--batch_size\<close> have \<open>nargs='?'\<close>: the default when the flag is
  absent (\<open>''\<close> for \<open>--save\<close>, 32 for \<open>--batch_size\<close>, \<open>None\<close> otherwise),
  \<open>None\<close> when the flag comes without a value. The tissue flags are
  \<open>store_const\<close>: \<open>arg_f\<close> says whether \<open>-f\<close> was given, and \<open>args.f\<close> is then
  the constant of \<open>models\<close>, otherwise \<open>None\<close>.
\<close>

record args =
  arg_dicom :: "string list option"
  arg_save :: "string option"
  arg_ext :: "string option"
  arg_f :: bool
  arg_t :: bool
  arg_m :: bool
  arg_p :: bool
  arg_dess :: bool
  arg_t2 :: bool
  arg_batch_size :: "int option"
  arg_gpu :: "string option"

subsection \<open>Library functions used by the orchestrator\<close>

text \<open>A Python dict keeps insertion order; assigning to a present key keeps its place.\<close>

fun dict_set :: "('k \<times> 'v) list \<Rightarrow> 'k \<Rightarrow> 'v \<Rightarrow> ('k \<times> 'v) list" where
  "dict_set [] k v = [(k, v)]"
| "dict_set ((k', v') # kvs) k v =
     (if k' = k then (k, v) # kvs else (k', v') # dict_set kvs k v)"

definition keys :: "('k \<times> 'v) list \<Rightarrow> 'k list" where
  "keys d = map fst d"

text \<open>\<open>os.path.join\<close> of two components (POSIX).\<close>

definition path_join :: "string \<Rightarrow> string \<Rightarrow> string" where
  "path_join a b =
     (if b \<noteq> [] \<and> hd b = CHR ''/'' then b
      else if a = [] \<or> last a = CHR ''/'' then a @ b
      else a @ ''/'' @ b)"

definition isdir :: "('a, 'b) world \<Rightarrow> string \<Rightarrow> bool" where
  "isdir w p = (p \<in> dirs w)"

text \<open>
  The proper ancestors of a path: its prefixes that end before a separator, the root apart.
\<close>

fun prefixes_at_slash :: "string \<Rightarrow> string \<Rightarrow> string list" where
  "prefixes_at_slash acc [] = []"
| "prefixes_at_slash acc (ch # rest) =
     (if ch = CHR ''/'' \<and> acc \<noteq> [] then acc # prefixes_at_slash (acc @ [ch]) rest
      else prefixes_at_slash (acc @ [ch]) rest)"

definition ancestors :: "string \<Rightarrow> string list" where
  "ancestors p = prefixes_at_slash [] p"

text \<open>
  \<open>os.makedirs\<close> (with \<open>exist_ok=False\<close>). It raises \<open>NotADirectoryError\<close> when
  an ancestor of the path is a regular file, \<open>FileExistsError\<close> when the path exists
  already, and whatever the operating system refuses the creation with. Otherwise it
  creates the directory and the ancestors that are missing.
\<close>

definition makedirs :: "string \<Rightarrow> ('a, 'b) world \<Rightarrow> error option \<times> ('a, 'b) world" where
  "makedirs p w =
     (let w1 = w\<lparr>trace := trace w @ [MakeDirs p]\<rparr>
      in if set (ancestors p) \<inter> files w \<noteq> {} then (Some (NotADirectoryError p), w1)
         else if p \<in> dirs w \<or> p \<in> files w then (Some (FileExistsError p), w1)
         else (case makedirs_refusal w p of
                 Some e \<Rightarrow> (Some e, w1)
               | None \<Rightarrow> (None, w1\<lparr>dirs := insert p (dirs w1 \<union> set (ancestors p))\<rparr>)))"

text \<open>A path that does not exist and that \<open>os.makedirs\<close> can create.\<close>

definition creatable :: "('a, 'b) world \<Rightarrow> string \<Rightarrow> bool" where
  "creatable w p =
     (p \<notin> dirs w \<and> p \<notin> files w \<and> set (ancestors p) \<inter> files w = {} \<and>
      makedirs_refusal w p = None)"

subsection \<open>generate\_mask (lines 12 to 42)\<close>

text \<open>
  The loop of lines 31 to 40, on the local dict \<open>masks\<close> and the world. The
  \<open>assert\<close> of line 34 stands before the write of line 38; the interpreter is taken to
  run without \<open>-O\<close>, so the \<open>assert\<close> is executed. The trace records a call before
  its outcome is known; a file is added to the file system when \<open>write_3d\<close> returns.
\<close>

fun segment_loop ::
  "('a, 'b, 'r, 'm, 's) services \<Rightarrow> 'a volume \<Rightarrow> string \<Rightarrow> string list \<Rightarrow>
   (string \<times> 'b volume) list \<times> ('a, 'b) world \<Rightarrow>
   error option \<times> (string \<times> 'b volume) list \<times> ('a, 'b) world" where
  "segment_loop c vol save_path [] (masks, w) = (None, masks, w)"
| "segment_loop c vol save_path (tissue # rest) (masks, w) =
     (let w1 = w\<lparr>trace := trace w @
                  [Print (''Segmenting '' @ tissue @ ''...''), Segment vol tissue]\<rparr>
      in case models_generate_mask c vol tissue of
           Inl e \<Rightarrow> (Some e, masks, w1)
         | Inr mask_t \<Rightarrow>
             if shape vol \<noteq> shape mask_t then (Some AssertionError, masks, w1)
             else
               let mask_filepath = path_join save_path (tissue @ ''.tiff'');
                   w2 = w1\<lparr>trace := trace w1 @ [Write3d mask_filepath mask_t]\<rparr>
               in case write_3d c mask_filepath mask_t of
                    Some e \<Rightarrow> (Some e, masks, w2)
                  | None \<Rightarrow>
                      segment_loop c vol save_path rest
                        (dict_set masks tissue mask_t,
                         w2\<lparr>files := insert mask_filepath (files w2)\<rparr>))"

definition generate_mask ::
  "('a, 'b, 'r, 'm, 's) services \<Rightarrow> string \<Rightarrow> string \<Rightarrow> string list \<Rightarrow> string option \<Rightarrow>
   int \<Rightarrow> ('a, 'b) world \<Rightarrow> (error + (string \<times> 'b volume) list) \<times> ('a, 'b) world" where
  "generate_mask c dicom_path save_path tissue_strs dicom_ext echos w =
     (let w1 = w\<lparr>trace := trace w @ [LoadDicom dicom_path dicom_ext]\<rparr>
      in case load_dicom c dicom_path dicom_ext of
           Inl e \<Rightarrow> (Inl e, w1)
         | Inr (volume, _) \<Rightarrow>
            (case split_volume c volume echos of
               Inl e \<Rightarrow> (Inl e, w1)
             | Inr [] \<Rightarrow> (Inl IndexError, w1)
             | Inr (sub0 # _) \<Rightarrow>
                (case whiten_volume c sub0 of
                   Inl e \<Rightarrow> (Inl e, w1)
                 | Inr vol \<Rightarrow>
                    (case segment_loop c vol save_path tissue_strs
                            ([], w1\<lparr>trace := trace w1 @ [Print '''']\<rparr>) of
                       (Some e, _, w2) \<Rightarrow> (Inl e, w2)
                     | (None, masks, w2) \<Rightarrow> (Inr masks, w2)))))"

subsection \<open>calculate\_t2\_maps (lines 45 to 57)\<close>



subsection \<open>parse\_args (lines 60 to 152)\<close>

text \<open>Lines 143 to 146: the tissues to segment, in the order of the four flags.\<close>

definition select_tissues :: "('a, 'b, 'r, 'm, 's) services \<Rightarrow> args \<Rightarrow> string list" where
  "select_tissues c a =
     (let tissue_strs =
            [if arg_f a then Some (FEMORAL_CARTILAGE_STR c) else None,
             if arg_t a then Some (TIBIAL_CARTILAGE_STR c) else None,
             if arg_m a then Some (MENISCUS_STR c) else None,
             if arg_p a then Some (PATELLAR_CARTILAGE_STR c) else None];
          tissue_strs = List.map_filter id tissue_strs
      in if length tissue_strs = 0
         then [FEMORAL_CARTILAGE_STR c, TIBIAL_CARTILAGE_STR c, MENISCUS_STR c,
               PATELLAR_CARTILAGE_STR c]
         else tissue_strs)"

text \<open>What lines 102 to 146 hand to line 148.\<close>

record resolved =
  r_dicom_path :: string
  r_save_path :: string
  r_tissue_strs :: "string list"
  r_dicom_ext :: "string option"
  r_num_echos :: int
  r_dess :: bool
  r_calculate_t2_maps :: bool

definition no_dicom_msg :: string where
  "no_dicom_msg = ''No path to dicom provided''"

definition not_a_directory_msg :: "string \<Rightarrow> string" where
  "not_a_directory_msg dicom_path =
     ''Directory '' @ [CHR 0x27] @ dicom_path @ [CHR 0x27] @ '' does not exist''"

definition t2_needs_dess_msg :: string where
  "t2_needs_dess_msg =
     ''calculating t2 maps only compatible with DESS dicoms. Please specify the --dess flag''"

text \<open>
  Lines 102 to 146, argument resolution. \<open>args.dicom[0]\<close> raises on \<open>None\<close> and on
  an empty list, and line 110 turns either into the \<open>ValueError\<close>.
  \<open>os.path.isdir(None)\<close> raises a \<open>TypeError\<close>, which nothing catches.
\<close>

definition resolve_args ::
  "('a, 'b, 'r, 'm, 's) services \<Rightarrow> args \<Rightarrow> ('a, 'b) world \<Rightarrow>
   (error + resolved) \<times> ('a, 'b) world" where
  "resolve_args c a w =
     (let w0 = (case arg_gpu a of None \<Rightarrow> w | Some gpu \<Rightarrow> w\<lparr>CUDA_VISIBLE_DEVICES := Some gpu\<rparr>)
      in case arg_dicom a of
           None \<Rightarrow> (Inl (ValueError no_dicom_msg), w0)
         | Some [] \<Rightarrow> (Inl (ValueError no_dicom_msg), w0)
         | Some (dicom_path # _) \<Rightarrow>
            (let save_path = (if arg_save a = Some '''' then Some dicom_path else arg_save a)
             in if \<not> isdir w0 dicom_path
                then (Inl (NotADirectoryError (not_a_directory_msg dicom_path)), w0)
                else
                 (case save_path of
                    None \<Rightarrow>
                      (Inl (TypeError ''stat: path should be string, bytes, os.PathLike or integer, not NoneType''), w0)
                  | Some save_path \<Rightarrow>
                     (case (if \<not> isdir w0 save_path then makedirs save_path w0 else (None, w0)) of
                        (Some e, w1) \<Rightarrow> (Inl e, w1)
                      | (None, w1) \<Rightarrow>
                          if \<not> arg_dess a \<and> arg_t2 a
                          then (Inl (ValueError t2_needs_dess_msg), w1)
                          else
                            (Inr \<lparr>r_dicom_path = dicom_path,
                                  r_save_path = save_path,
                                  r_tissue_strs = select_tissues c a,
                                  r_dicom_ext = arg_ext a,
                                  r_num_echos = (if arg_dess a then NUM_ECHOS c else 1),
                                  r_dess = arg_dess a,
                                  r_calculate_t2_maps = arg_t2 a\<rparr>,
                             w1\<lparr>BATCH_SIZE := arg_batch_size a\<rparr>)))))"

text \<open>
  Lines 148 to 152. Line 130 assigns \<open>args.t2\<close> to the name \<open>calculate_t2_maps\<close>,
  which makes that name a local variable of \<open>parse_args\<close> for the whole body: in
  line 152 it is this boolean, not the function of line 45, that is called, and calling
  a \<open>bool\<close> raises a \<open>TypeError\<close>.
\<close>

definition bool_not_callable :: error where
  "bool_not_callable = TypeError (CHR 0x27 # ''bool'' @ [CHR 0x27] @ '' object is not callable'')"

definition parse_args ::
  "('a, 'b, 'r, 'm, 's) services \<Rightarrow> args \<Rightarrow> ('a, 'b) world \<Rightarrow>
   (error + unit) \<times> ('a, 'b) world" where
  "parse_args c a w =
     (case resolve_args c a w of
        (Inl e, w1) \<Rightarrow> (Inl e, w1)
      | (Inr r, w1) \<Rightarrow>
         (case generate_mask c (r_dicom_path r) (r_save_path r) (r_tissue_strs r)
                 (r_dicom_ext r) (r_num_echos r) w1 of
            (Inl e, w2) \<Rightarrow> (Inl e, w2)
          | (Inr masks, w2) \<Rightarrow>
              if r_dess r \<and> r_calculate_t2_maps r then (Inl bool_not_callable, w2)
              else (Inr (), w2)))"

section \<open>Observations on a run\<close>

text \<open>The files that the Mask Writer was asked to write, read off the trace.\<close>

fun written :: "('a, 'b) event \<Rightarrow> (string \<times> 'b volume) option" where
  "written (Write3d p m) = Some (p, m)"
| "written _ = None"

definition writes :: "('a, 'b) world \<Rightarrow> (string \<times> 'b volume) list" where
  "writes w = List.map_filter written (trace w)"

text \<open>Line 37: the path of the mask file of a tissue.\<close>

definition mask_path :: "string \<Rightarrow> string \<Rightarrow> string" where
  "mask_path save_path tissue = path_join save_path (tissue @ ''.tiff'')"

text \<open>
  One pass through the loop body completes: the model returns a mask, the mask has the
  shape of the volume, and the write does not raise.
\<close>

definition tissue_ok ::
  "('a, 'b, 'r, 'm, 's) services \<Rightarrow> 'a volume \<Rightarrow> string \<Rightarrow> string \<Rightarrow> bool" where
  "tissue_ok c vol save_path tissue =
     (case models_generate_mask c vol tissue of
        Inl e \<Rightarrow> False
      | Inr mask_t \<Rightarrow> shape vol = shape mask_t \<and> write_3d c (mask_path save_path tissue) mask_t = None)"

text \<open>The mask of a tissue, where the model returns one.\<close>

definition the_mask ::
  "('a, 'b, 'r, 'm, 's) services \<Rightarrow> 'a volume \<Rightarrow> string \<Rightarrow> 'b volume" where
  "the_mask c vol tissue = projr (models_generate_mask c vol tissue)"

text \<open>The calls of one completed pass through the loop body.\<close>

definition step_events ::
  "('a, 'b, 'r, 'm, 's) services \<Rightarrow> 'a volume \<Rightarrow> string \<Rightarrow> string \<Rightarrow>
   ('a, 'b) event list" where
  "step_events c vol save_path tissue =
     [Print (''Segmenting '' @ tissue @ ''...''), Segment vol tissue,
      Write3d (mask_path save_path tissue) (the_mask c vol tissue)]"

text \<open>
  What the loop may add to the trace when it segments \<open>vol\<close>: progress lines, calls of
  the model on \<open>vol\<close>, and writes of masks that have the shape of \<open>vol\<close>.
\<close>

fun loop_event :: "'a volume \<Rightarrow> ('a, 'b) event \<Rightarrow> bool" where
  "loop_event vol (Print s) = True"
| "loop_event vol (Segment v t) = (v = vol)"
| "loop_event vol (Write3d p m) = (shape m = shape vol)"
| "loop_event vol _ = False"

text \<open>
  A small instance of the collaborators and of the world, on which the theorems below are
  evaluated: a volume of two echoes with two voxels each, a model that thresholds the
  whitened volume, and a file system that holds the DICOM directory \<open>/knee\<close> only.
\<close>

definition knee_volume :: "int volume" where
  "knee_volume = \<lparr>shape = [2, 1, 2], voxels = [7, 1, 2, 6]\<rparr>"

definition example_split :: "int volume \<Rightarrow> int \<Rightarrow> error + int volume list" where
  "example_split v n =
     (if n = 1 then Inr [v]
      else if n = 2 then
        Inr [\<lparr>shape = [1, 1, 2], voxels = take 2 (voxels v)\<rparr>,
             \<lparr>shape = [1, 1, 2], voxels = drop 2 (voxels v)\<rparr>]
      else Inl (ServiceError ''unsupported echo count''))"

definition example_services :: "(int, bool, string, int volume, int) services" where
  "example_services =
     \<lparr>FEMORAL_CARTILAGE_STR = ''femoral_cartilage'',
      TIBIAL_CARTILAGE_STR = ''tibial_cartilage'',
      MENISCUS_STR = ''meniscus'',
      PATELLAR_CARTILAGE_STR = ''patellar_cartilage'',
      NUM_ECHOS = 2,
      load_dicom = (\<lambda>p e. if p = ''/knee'' then Inr (knee_volume, ''ref'')
                           else Inl (ServiceError ''no dicoms'')),
      split_volume = example_split,
      whiten_volume = (\<lambda>v. Inr (v\<lparr>voxels := map (\<lambda>x. x - 4) (voxels v)\<rparr>)),
      models_generate_mask =
        (\<lambda>v t. Inr \<lparr>shape = shape v, voxels = map (\<lambda>x. 0 < x) (voxels v)\<rparr>),
      write_3d = (\<lambda>p m. None),
      calc_dess_t2_map = (\<lambda>v r. Inr v),
      get_tissue_t2 = (\<lambda>tm m t. Inr (sum_list (map (\<lambda>(x, b). if b then x else 0)
                                                  (zip (voxels tm) (voxels m)))))\<rparr>"

text \<open>The same services with a segmentation model that returns a flat mask for the meniscus.\<close>

definition flat_meniscus_services :: "(int, bool, string, int volume, int) services" where
  "flat_meniscus_services =
     example_services
       \<lparr>models_generate_mask :=
          (\<lambda>v t. if t = ''meniscus''
                  then Inr \<lparr>shape = [length (voxels v)], voxels = map (\<lambda>x. 0 < x) (voxels v)\<rparr>
                  else models_generate_mask example_services v t)\<rparr>"

definition example_world :: "(int, bool) world" where
  "example_world =
     \<lparr>dirs = {''/knee''}, files = {}, CUDA_VISIBLE_DEVICES = None, BATCH_SIZE = None,
      makedirs_refusal = (\<lambda>p. None), trace = []\<rparr>"

text \<open>The same world with a DICOM file in the directory.\<close>

definition world_with_dicom_file :: "(int, bool) world" where
  "world_with_dicom_file = example_world\<lparr>files := {''/knee/a.dcm''}\<rparr>"

definition example_args :: args where
  "example_args =
     \<lparr>arg_dicom = Some [''/knee''], arg_save = Some ''/out'', arg_ext = None,
      arg_f = True, arg_t = False, arg_m = True, arg_p = False,
      arg_dess = False, arg_t2 = False, arg_batch_size = Some 32, arg_gpu = None\<rparr>"

section \<open>Properties of the loops and of argument resolution\<close>

lemma keys_Nil: "keys [] = []"
  by (simp add: keys_def)

lemma keys_dict_set:
  "keys (dict_set d k v) = (if k \<in> set (keys d) then keys d else keys d @ [k])"
  by (induction d k v rule: dict_set.induct) (auto simp: keys_def)

lemma map_of_dict_set: "map_of (dict_set d k v) = (map_of d)(k \<mapsto> v)"
  by (induction d k v rule: dict_set.induct) (auto simp: fun_eq_iff)

lemma map_filter_append:
  "List.map_filter g (xs @ ys) = List.map_filter g xs @ List.map_filter g ys"
  by (simp add: List.map_filter_def)

lemma segment_loop_append:
  "segment_loop c vol sp (xs @ ys) (masks, w) =
     (case segment_loop c vol sp xs (masks, w) of
        (None, s) \<Rightarrow> segment_loop c vol sp ys s
      | (Some e, s) \<Rightarrow> (Some e, s))"
  by (induction xs arbitrary: masks w)
     (auto simp: Let_def split: sum.splits option.splits prod.splits)

lemma segment_loop_Cons_ok:
  assumes "tissue_ok c vol sp t"
  shows "segment_loop c vol sp (t # ts) (masks, w) =
         segment_loop c vol sp ts
           (dict_set masks t (the_mask c vol t),
            w\<lparr>trace := trace w @ step_events c vol sp t,
              files := insert (mask_path sp t) (files w)\<rparr>)"
proof -
  from assms obtain m where "models_generate_mask c vol t = Inr m"
    "shape vol = shape m" "write_3d c (mask_path sp t) m = None"
    by (auto simp: tissue_ok_def split: sum.splits)
  then show ?thesis
    by (simp add: Let_def the_mask_def step_events_def mask_path_def)
qed

lemma segment_loop_Cons_fail:
  assumes "\<not> tissue_ok c vol sp t"
  shows "\<exists>e. segment_loop c vol sp (t # ts) (masks, w) =
           (Some e, masks,
            w\<lparr>trace := trace w @
                 (Print (''Segmenting '' @ t @ ''...'') # Segment vol t #
                  (case models_generate_mask c vol t of
                     Inl e \<Rightarrow> []
                   | Inr m \<Rightarrow> if shape vol \<noteq> shape m then []
                              else [Write3d (mask_path sp t) m]))\<rparr>)"
  using assms
  by (auto simp: Let_def tissue_ok_def mask_path_def split: sum.splits option.splits)

lemma segment_loop_ok:
  "\<forall>u\<in>set ts. tissue_ok c vol sp u \<Longrightarrow>
   segment_loop c vol sp ts (masks, w) =
     (None, fold (\<lambda>t d. dict_set d t (the_mask c vol t)) ts masks,
      w\<lparr>trace := trace w @ concat (map (step_events c vol sp) ts),
        files := files w \<union> mask_path sp ` set ts\<rparr>)"
proof (induction ts arbitrary: masks w)
  case Nil
  then show ?case by simp
next
  case (Cons t ts)
  then show ?case
    by (simp add: segment_loop_Cons_ok del: segment_loop.simps(2))
qed

lemma segment_loop_None:
  "segment_loop c vol sp ts (masks, w) = (None, masks', w') \<Longrightarrow>
   \<forall>u\<in>set ts. tissue_ok c vol sp u"
proof (induction ts arbitrary: masks w)
  case Nil
  then show ?case by simp
next
  case (Cons t ts)
  show ?case
  proof (cases "tissue_ok c vol sp t")
    case True
    with Cons.prems Cons.IH show ?thesis
      by (simp add: segment_loop_Cons_ok del: segment_loop.simps(2))
  next
    case False
    from segment_loop_Cons_fail [OF this, of ts masks w] Cons.prems show ?thesis
      by auto
  qed
qed

lemma loop_event_step:
  "tissue_ok c vol sp t \<Longrightarrow> \<forall>e\<in>set (step_events c vol sp t). loop_event vol e"
  by (auto simp: step_events_def tissue_ok_def the_mask_def split: sum.splits)

lemma segment_loop_trace:
  "segment_loop c vol sp ts (masks, w) = (r, masks', w') \<Longrightarrow>
   \<exists>evs. trace w' = trace w @ evs \<and> (\<forall>e\<in>set evs. loop_event vol e) \<and> dirs w' = dirs w"
proof (induction ts arbitrary: masks w)
  case Nil
  then show ?case by simp
next
  case (Cons t ts)
  show ?case
  proof (cases "tissue_ok c vol sp t")
    case False
    from segment_loop_Cons_fail [OF this, of ts masks w] Cons.prems show ?thesis
      by (auto split: sum.splits if_splits)
  next
    case True
    let ?w2 = "w\<lparr>trace := trace w @ step_events c vol sp t,
                 files := insert (mask_path sp t) (files w)\<rparr>"
    from Cons.prems True
    have "segment_loop c vol sp ts (dict_set masks t (the_mask c vol t), ?w2) = (r, masks', w')"
      by (simp add: segment_loop_Cons_ok del: segment_loop.simps(2))
    from Cons.IH [OF this] obtain evs where
      "trace w' = trace ?w2 @ evs" "\<forall>e\<in>set evs. loop_event vol e" "dirs w' = dirs ?w2"
      by blast
    then show ?thesis using loop_event_step [OF True] by auto
  qed
qed

lemma keys_fold_dict_set:
  "set (keys (fold (\<lambda>t d. dict_set d t (g t)) ts d)) = set (keys d) \<union> set ts"
  by (induction ts arbitrary: d) (auto simp: keys_dict_set)

lemma keys_fold_dict_set_distinct:
  "distinct (keys d @ ts) \<Longrightarrow> keys (fold (\<lambda>t d. dict_set d t (g t)) ts d) = keys d @ ts"
  by (induction ts arbitrary: d) (auto simp: keys_dict_set)

lemma map_of_fold_dict_set:
  "map_of (fold (\<lambda>t d. dict_set d t (g t)) ts d) u =
     (if u \<in> set ts then Some (g u) else map_of d u)"
  by (induction ts arbitrary: d) (auto simp: map_of_dict_set)

lemma writes_append_trace:
  "writes (w\<lparr>trace := trace w @ evs\<rparr>) = writes w @ List.map_filter written evs"
  by (simp add: writes_def map_filter_append)

lemma writes_steps:
  "List.map_filter written (concat (map (step_events c vol sp) ts)) =
     map (\<lambda>t. (mask_path sp t, the_mask c vol t)) ts"
  by (induction ts) (simp_all add: List.map_filter_simps step_events_def map_filter_append)

lemma generate_mask_loop:
  assumes "load_dicom c dp ext = Inr (v0, ref)" "split_volume c v0 echos = Inr subs"
    "subs \<noteq> []" "whiten_volume c (subs ! 0) = Inr vol"
  shows "generate_mask c dp sp ts ext echos w =
     (case segment_loop c vol sp ts ([], w\<lparr>trace := trace w @ [LoadDicom dp ext, Print []]\<rparr>) of
        (Some e, _, w2) \<Rightarrow> (Inl e, w2)
      | (None, masks, w2) \<Rightarrow> (Inr masks, w2))"
  using assms by (cases subs) (simp_all add: generate_mask_def)

lemma generate_mask_prelude:
  "(\<exists>v0 ref subs vol. load_dicom c dp ext = Inr (v0, ref) \<and> split_volume c v0 echos = Inr subs \<and>
      subs \<noteq> [] \<and> whiten_volume c (subs ! 0) = Inr vol) \<or>
   (\<exists>e. generate_mask c dp sp ts ext echos w = (Inl e, w\<lparr>trace := trace w @ [LoadDicom dp ext]\<rparr>))"
proof (cases "load_dicom c dp ext")
  case (Inl e)
  then show ?thesis by (simp add: generate_mask_def)
next
  case (Inr vr)
  obtain v0 ref where vr: "vr = (v0, ref)" by (cases vr)
  show ?thesis
  proof (cases "split_volume c v0 echos")
    case (Inl e)
    with Inr vr show ?thesis by (simp add: generate_mask_def)
  next
    case subs: (Inr subs)
    show ?thesis
    proof (cases subs)
      case Nil
      with Inr vr subs show ?thesis by (simp add: generate_mask_def)
    next
      case (Cons sub0 rest)
      show ?thesis
      proof (cases "whiten_volume c sub0")
        case (Inl e)
        with Inr vr subs Cons show ?thesis by (simp add: generate_mask_def)
      next
        case wh: (Inr vol)
        with Inr vr subs Cons show ?thesis by simp
      qed
    qed
  qed
qed



lemmas example_defs = example_services_def example_world_def example_args_def knee_volume_def
  example_split_def flat_meniscus_services_def

lemma ancestors_out: "ancestors ''/out'' = []"
  by (simp add: ancestors_def)

lemma ancestors_below_file: "ancestors ''/knee/a.dcm/out'' = [''/knee'', ''/knee/a.dcm'']"
  by (simp add: ancestors_def)

lemma resolve_args_not_dir:
  assumes "arg_dicom a = Some (d # ds)" "d \<notin> dirs w"
  shows "resolve_args c a w =
    (Inl (NotADirectoryError (not_a_directory_msg d)),
     (case arg_gpu a of None \<Rightarrow> w | Some gpu \<Rightarrow> w\<lparr>CUDA_VISIBLE_DEVICES := Some gpu\<rparr>))"
  using assms by (simp add: resolve_args_def isdir_def Let_def split: option.splits)

lemma resolve_args_no_dicom:
  assumes "arg_dicom a = None"
  shows "fst (resolve_args c a w) = Inl (ValueError no_dicom_msg)"
  using assms by (simp add: resolve_args_def)

lemma resolve_args_new_dir:
  assumes "arg_dicom a = Some (d # ds)" "d \<in> dirs w" "arg_save a = Some s" "s \<noteq> []"
    "creatable w s"
  shows "resolve_args c a w =
    (let w1 = (case arg_gpu a of None \<Rightarrow> w | Some gpu \<Rightarrow> w\<lparr>CUDA_VISIBLE_DEVICES := Some gpu\<rparr>)
                \<lparr>trace := trace w @ [MakeDirs s],
                 dirs := insert s (dirs w \<union> set (ancestors s))\<rparr>
     in if \<not> arg_dess a \<and> arg_t2 a then (Inl (ValueError t2_needs_dess_msg), w1)
        else (Inr \<lparr>r_dicom_path = d, r_save_path = s, r_tissue_strs = select_tissues c a,
                   r_dicom_ext = arg_ext a,
                   r_num_echos = (if arg_dess a then NUM_ECHOS c else 1),
                   r_dess = arg_dess a, r_calculate_t2_maps = arg_t2 a\<rparr>,
              w1\<lparr>BATCH_SIZE := arg_batch_size a\<rparr>))"
  using assms
  by (simp add: resolve_args_def isdir_def makedirs_def creatable_def Let_def
      split: option.splits)

lemma makedirs_creatable: "creatable w p \<longleftrightarrow> fst (makedirs p w) = None"
  by (auto simp: makedirs_def creatable_def Let_def split: option.splits)

lemma resolve_args_t2_fails:
  assumes "arg_t2 a" "\<not> arg_dess a"
  shows "\<exists>e evs. fst (resolve_args c a w) = Inl e \<and>
           trace (snd (resolve_args c a w)) = trace w @ evs \<and>
           (\<forall>ev\<in>set evs. \<exists>p. ev = MakeDirs p)"
  using assms
  by (auto simp: resolve_args_def isdir_def makedirs_def Let_def
      split: option.splits list.splits)

lemma parse_args_resolve_fail:
  "fst (resolve_args c a w) = Inl e \<Longrightarrow> parse_args c a w = (Inl e, snd (resolve_args c a w))"
  by (cases "resolve_args c a w") (auto simp: parse_args_def)

lemma segment_loop_assert:
  assumes "models_generate_mask c vol t = Inr m" "shape m \<noteq> shape vol"
  shows "segment_loop c vol sp (t # rest) (masks, w) =
           (Some AssertionError, masks,
            w\<lparr>trace := trace w @ [Print (''Segmenting '' @ t @ ''...''), Segment vol t]\<rparr>)"
  using assms by (auto simp: Let_def)

lemma segment_loop_first_call:
  assumes "segment_loop c vol sp (t # rest) (masks, w) = (r, masks', w')"
  shows "\<exists>evs. trace w' =
           trace w @ Print (''Segmenting '' @ t @ ''...'') # Segment vol t # evs"
proof (cases "tissue_ok c vol sp t")
  case True
  let ?w2 = "w\<lparr>trace := trace w @ step_events c vol sp t,
               files := insert (mask_path sp t) (files w)\<rparr>"
  from assms True
  have "segment_loop c vol sp rest (dict_set masks t (the_mask c vol t), ?w2) = (r, masks', w')"
    by (simp add: segment_loop_Cons_ok del: segment_loop.simps(2))
  from segment_loop_trace [OF this] obtain evs where "trace w' = trace ?w2 @ evs" by blast
  then show ?thesis by (simp add: step_events_def)
next
  case False
  from segment_loop_Cons_fail [OF this, of rest masks w] assms show ?thesis by auto
qed

lemma segment_loop_prefix_assert:
  assumes "\<forall>u\<in>set pre. tissue_ok c vol sp u"
    and "models_generate_mask c vol t = Inr m" and "shape m \<noteq> shape vol"
  shows "segment_loop c vol sp (pre @ t # post) (masks, w) =
           (Some AssertionError, fold (\<lambda>t d. dict_set d t (the_mask c vol t)) pre masks,
            w\<lparr>trace := trace w @ concat (map (step_events c vol sp) pre) @
                          [Print (''Segmenting '' @ t @ ''...''), Segment vol t],
              files := files w \<union> mask_path sp ` set pre\<rparr>)"
  by (simp add: segment_loop_append segment_loop_ok [OF assms(1)]
      segment_loop_assert [OF assms(2,3)] del: segment_loop.simps)

lemma generate_mask_first_call:
  assumes "load_dicom c dp ext = Inr (v0, ref)" "split_volume c v0 echos = Inr subs"
    "subs \<noteq> []" "whiten_volume c (subs ! 0) = Inr vol"
    and "generate_mask c dp sp (t # rest) ext echos w = (res, w')"
  shows "\<exists>evs. trace w' = trace w @ LoadDicom dp ext # Print [] #
           Print (''Segmenting '' @ t @ ''...'') # Segment vol t # evs"
proof -
  let ?w1 = "w\<lparr>trace := trace w @ [LoadDicom dp ext, Print []]\<rparr>"
  obtain r m' w2 where loop: "segment_loop c vol sp (t # rest) ([], ?w1) = (r, m', w2)"
    by (metis prod_cases3)
  with generate_mask_loop [OF assms(1-4), of sp "t # rest" w] assms(5) have "w2 = w'"
    by (auto split: option.splits simp del: segment_loop.simps)
  with segment_loop_first_call [OF loop] show ?thesis by simp
qed

lemma generate_mask_trace:
  assumes "generate_mask c dp sp ts ext echos w = (res, w')"
  shows "\<exists>evs. trace w' = trace w @ LoadDicom dp ext # evs \<and> dirs w' = dirs w \<and>
           (evs = [] \<or>
            (\<exists>v0 ref subs vol. load_dicom c dp ext = Inr (v0, ref) \<and>
                split_volume c v0 echos = Inr subs \<and> subs \<noteq> [] \<and>
                whiten_volume c (subs ! 0) = Inr vol \<and> (\<forall>e\<in>set evs. loop_event vol e)))"
proof -
  from generate_mask_prelude [of c dp ext echos sp ts w]
  consider (ok) v0 ref subs vol where "load_dicom c dp ext = Inr (v0, ref)"
      "split_volume c v0 echos = Inr subs" "subs \<noteq> []" "whiten_volume c (subs ! 0) = Inr vol"
    | (fail) e where
      "generate_mask c dp sp ts ext echos w = (Inl e, w\<lparr>trace := trace w @ [LoadDicom dp ext]\<rparr>)"
    by blast
  then show ?thesis
  proof cases
    case fail
    with assms show ?thesis by auto
  next
    case ok
    let ?w1 = "w\<lparr>trace := trace w @ [LoadDicom dp ext, Print []]\<rparr>"
    obtain r m' w2 where loop: "segment_loop c vol sp ts ([], ?w1) = (r, m', w2)"
      by (metis prod_cases3)
    with generate_mask_loop [OF ok, of sp ts w] assms have w2: "w2 = w'"
      by (auto split: option.splits)
    from segment_loop_trace [OF loop] obtain evs where
      evs: "trace w2 = trace ?w1 @ evs" "\<forall>e\<in>set evs. loop_event vol e" "dirs w2 = dirs ?w1"
      by blast
    have "trace w' = trace w @ LoadDicom dp ext # (Print [] # evs)"
      using evs(1) w2 by simp
    moreover have "\<forall>e\<in>set (Print [] # evs). loop_event vol e" using evs(2) by simp
    moreover have "dirs w' = dirs w" using evs(3) w2 by simp
    ultimately show ?thesis using ok by blast
  qed
qed

lemma generate_mask_success:
  assumes "generate_mask c dp sp ts ext echos w = (Inr masks, w2)"
  shows "\<exists>v0 ref subs vol. load_dicom c dp ext = Inr (v0, ref) \<and>
           split_volume c v0 echos = Inr subs \<and> subs \<noteq> [] \<and>
           whiten_volume c (subs ! 0) = Inr vol \<and> (\<forall>u\<in>set ts. tissue_ok c vol sp u) \<and>
           masks = fold (\<lambda>t d. dict_set d t (the_mask c vol t)) ts [] \<and>
           w2 = w\<lparr>trace := trace w @ [LoadDicom dp ext, Print []] @
                             concat (map (step_events c vol sp) ts),
                  files := files w \<union> mask_path sp ` set ts\<rparr>"
proof -
  from generate_mask_prelude [of c dp ext echos sp ts w] assms
  obtain v0 ref subs vol where ok: "load_dicom c dp ext = Inr (v0, ref)"
      "split_volume c v0 echos = Inr subs" "subs \<noteq> []" "whiten_volume c (subs ! 0) = Inr vol"
    by auto
  let ?w1 = "w\<lparr>trace := trace w @ [LoadDicom dp ext, Print []]\<rparr>"
  obtain r m' w' where loop: "segment_loop c vol sp ts ([], ?w1) = (r, m', w')"
    by (metis prod_cases3)
  with generate_mask_loop [OF ok, of sp ts w] assms
  have r: "r = None" "m' = masks" "w' = w2"
    by (auto split: option.splits)
  from loop r have tok: "\<forall>u\<in>set ts. tissue_ok c vol sp u"
    using segment_loop_None by blast
  from segment_loop_ok [OF tok, of "[]" ?w1] loop r
  have "masks = fold (\<lambda>t d. dict_set d t (the_mask c vol t)) ts []"
    "w2 = ?w1\<lparr>trace := trace ?w1 @ concat (map (step_events c vol sp) ts),
              files := files ?w1 \<union> mask_path sp ` set ts\<rparr>"
    by simp_all
  with ok tok show ?thesis by simp
qed

lemma generate_mask_success_effects:
  assumes "generate_mask c dp sp ts ext echos w = (Inr masks, w2)"
  shows "map fst (writes w2) = map fst (writes w) @ map (mask_path sp) ts"
    and "files w2 = files w \<union> mask_path sp ` set ts"
    and "dirs w2 = dirs w"
    and "set (keys masks) = set ts"
    and "distinct ts \<Longrightarrow> keys masks = ts"
proof -
  from generate_mask_success [OF assms] obtain vol where
    m: "masks = fold (\<lambda>t d. dict_set d t (the_mask c vol t)) ts []" and
    w2: "w2 = w\<lparr>trace := trace w @ [LoadDicom dp ext, Print []] @
                             concat (map (step_events c vol sp) ts),
                  files := files w \<union> mask_path sp ` set ts\<rparr>"
    by blast
  show "map fst (writes w2) = map fst (writes w) @ map (mask_path sp) ts"
    by (simp add: w2 writes_def map_filter_append writes_steps comp_def)
  show "files w2 = files w \<union> mask_path sp ` set ts" by (simp add: w2)
  show "dirs w2 = dirs w" by (simp add: w2)
  show "set (keys masks) = set ts" by (simp add: m keys_fold_dict_set keys_Nil)
  show "keys masks = ts" if "distinct ts"
    using that by (simp add: m keys_fold_dict_set_distinct keys_Nil)
qed

lemma select_tissues_default:
  "\<not> arg_f a \<Longrightarrow> \<not> arg_t a \<Longrightarrow> \<not> arg_m a \<Longrightarrow> \<not> arg_p a \<Longrightarrow>
   select_tissues c a = [FEMORAL_CARTILAGE_STR c, TIBIAL_CARTILAGE_STR c, MENISCUS_STR c,
                         PATELLAR_CARTILAGE_STR c]"
  by (simp add: select_tissues_def)

lemma select_tissues_flags:
  "arg_f a \<or> arg_t a \<or> arg_m a \<or> arg_p a \<Longrightarrow>
   select_tissues c a =
     (if arg_f a then [FEMORAL_CARTILAGE_STR c] else []) @
     (if arg_t a then [TIBIAL_CARTILAGE_STR c] else []) @
     (if arg_m a then [MENISCUS_STR c] else []) @
     (if arg_p a then [PATELLAR_CARTILAGE_STR c] else [])"
  by (auto simp: select_tissues_def)

lemma parse_args_dess_t2:
  assumes "resolve_args c a w = (Inr r, w1)" "arg_dess a" "arg_t2 a"
    "generate_mask c (r_dicom_path r) (r_save_path r) (r_tissue_strs r) (r_dicom_ext r)
       (r_num_echos r) w1 = (Inr masks, w2)"
  shows "parse_args c a w = (Inl bool_not_callable, w2)"
proof -
  from assms(1) have "r_dess r = arg_dess a" "r_calculate_t2_maps r = arg_t2 a"
    by (auto simp: resolve_args_def Let_def split: option.splits list.splits if_splits prod.splits)
  with assms show ?thesis by (simp add: parse_args_def)
qed

section \<open>The claims\<close>

text \<open>
  Claim C3. When the dicom path of an invocation is not an existing directory, \<open>parse_args\<close>
  raises \<open>NotADirectoryError\<close>. This is not the error of the missing argument, the
  \<open>ValueError\<close> that the same invocation without \<open>--dicom\<close> raises. Nothing has
  been called by then: the trace and the directories are those of the start, so the save
  directory has not been created, nor has its creation been attempted.
\<close>

theorem dicom_path_not_a_directory:
  assumes "arg_dicom a = Some (d # ds)" and "d \<notin> dirs w"
  shows "fst (parse_args c a w) = Inl (NotADirectoryError (not_a_directory_msg d)) \<and>
         fst (parse_args c (a\<lparr>arg_dicom := None\<rparr>) w) = Inl (ValueError no_dicom_msg) \<and>
         NotADirectoryError (not_a_directory_msg d) \<noteq> ValueError no_dicom_msg \<and>
         trace (snd (parse_args c a w)) = trace w \<and>
         dirs (snd (parse_args c a w)) = dirs w"
proof -
  have r: "resolve_args c a w =
    (Inl (NotADirectoryError (not_a_directory_msg d)),
     (case arg_gpu a of None \<Rightarrow> w | Some gpu \<Rightarrow> w\<lparr>CUDA_VISIBLE_DEVICES := Some gpu\<rparr>))"
    using assms by (rule resolve_args_not_dir)
  have p: "parse_args c a w =
    (Inl (NotADirectoryError (not_a_directory_msg d)),
     (case arg_gpu a of None \<Rightarrow> w | Some gpu \<Rightarrow> w\<lparr>CUDA_VISIBLE_DEVICES := Some gpu\<rparr>))"
    using parse_args_resolve_fail [of c a w] r by simp
  have n: "fst (parse_args c (a\<lparr>arg_dicom := None\<rparr>) w) = Inl (ValueError no_dicom_msg)"
    using parse_args_resolve_fail [of c "a\<lparr>arg_dicom := None\<rparr>" w]
      resolve_args_no_dicom [of "a\<lparr>arg_dicom := None\<rparr>" c w] by simp
  show ?thesis using p n by (simp split: option.splits)
qed

theorem dicom_path_not_a_directory_witness:
  "arg_dicom (example_args\<lparr>arg_dicom := Some [''/missing'']\<rparr>) = Some [''/missing''] \<and>
   ''/missing'' \<notin> dirs example_world \<and>
   fst (parse_args example_services (example_args\<lparr>arg_dicom := Some [''/missing'']\<rparr>)
          example_world) = Inl (NotADirectoryError (not_a_directory_msg ''/missing'')) \<and>
   trace (snd (parse_args example_services (example_args\<lparr>arg_dicom := Some [''/missing'']\<rparr>)
          example_world)) = []"
  using dicom_path_not_a_directory [where a = "example_args\<lparr>arg_dicom := Some [''/missing'']\<rparr>"
      and d = "''/missing''" and ds = "[]" and w = example_world and c = example_services]
  by (simp add: example_args_def example_world_def)

text \<open>
  Claim C9 as stated fails: a save path that does not exist need not be one that can be
  created. With the regular file \<open>/knee/a.dcm\<close> as an ancestor of the save path,
  \<open>os.makedirs\<close> raises \<open>NotADirectoryError\<close> in line 124: the directory is not
  created and the check of line 132 is not reached.
\<close>

theorem t2_check_uncreatable_counterexample:
  "arg_dicom (example_args\<lparr>arg_save := Some ''/knee/a.dcm/out'', arg_t2 := True\<rparr>) =
     Some [''/knee''] \<and>
   ''/knee'' \<in> dirs world_with_dicom_file \<and>
   arg_save (example_args\<lparr>arg_save := Some ''/knee/a.dcm/out'', arg_t2 := True\<rparr>) =
     Some ''/knee/a.dcm/out'' \<and>
   ''/knee/a.dcm/out'' \<notin> dirs world_with_dicom_file \<and>
   ''/knee/a.dcm/out'' \<notin> files world_with_dicom_file \<and>
   arg_t2 (example_args\<lparr>arg_save := Some ''/knee/a.dcm/out'', arg_t2 := True\<rparr>) \<and>
   \<not> arg_dess (example_args\<lparr>arg_save := Some ''/knee/a.dcm/out'', arg_t2 := True\<rparr>) \<and>
   fst (parse_args example_services
          (example_args\<lparr>arg_save := Some ''/knee/a.dcm/out'', arg_t2 := True\<rparr>)
          world_with_dicom_file) = Inl (NotADirectoryError ''/knee/a.dcm/out'') \<and>
   ''/knee/a.dcm/out'' \<notin> dirs (snd (parse_args example_services
          (example_args\<lparr>arg_save := Some ''/knee/a.dcm/out'', arg_t2 := True\<rparr>)
          world_with_dicom_file))"
  by (simp add: example_args_def example_world_def world_with_dicom_file_def parse_args_def
      resolve_args_def isdir_def makedirs_def ancestors_below_file)

text \<open>
  Claim C9, amended. The check of \<open>--t2\<close> against \<open>--dess\<close> (line 132) comes after
  the save directory is created (line 124): with an existing dicom directory, a save path
  that does not exist and that \<open>os.makedirs\<close> can create, \<open>--t2\<close> and no
  \<open>--dess\<close>, the run ends with the configuration error and the save directory is
  on disk.
\<close>

theorem t2_check_after_makedirs:
  assumes "arg_dicom a = Some (d # ds)" and "d \<in> dirs w"
    and "arg_save a = Some s" and "s \<noteq> ''''" and "creatable w s"
    and "arg_t2 a" and "\<not> arg_dess a"
  shows "fst (parse_args c a w) = Inl (ValueError t2_needs_dess_msg) \<and>
         s \<in> dirs (snd (parse_args c a w)) \<and>
         trace (snd (parse_args c a w)) = trace w @ [MakeDirs s]"
proof -
  have "resolve_args c a w =
    (Inl (ValueError t2_needs_dess_msg),
     (case arg_gpu a of None \<Rightarrow> w | Some gpu \<Rightarrow> w\<lparr>CUDA_VISIBLE_DEVICES := Some gpu\<rparr>)
       \<lparr>trace := trace w @ [MakeDirs s], dirs := insert s (dirs w \<union> set (ancestors s))\<rparr>)"
    using resolve_args_new_dir [OF assms(1-5), of c] assms(6,7) by (simp add: Let_def)
  then show ?thesis
    using parse_args_resolve_fail [of c a w] by (simp split: option.splits)
qed

theorem t2_check_after_makedirs_witness:
  "arg_dicom (example_args\<lparr>arg_t2 := True\<rparr>) = Some [''/knee''] \<and>
   ''/knee'' \<in> dirs example_world \<and>
   arg_save (example_args\<lparr>arg_t2 := True\<rparr>) = Some ''/out'' \<and>
   creatable example_world ''/out'' \<and>
   arg_t2 (example_args\<lparr>arg_t2 := True\<rparr>) \<and> \<not> arg_dess (example_args\<lparr>arg_t2 := True\<rparr>) \<and>
   fst (parse_args example_services (example_args\<lparr>arg_t2 := True\<rparr>) example_world) =
     Inl (ValueError t2_needs_dess_msg) \<and>
   ''/out'' \<in> dirs (snd (parse_args example_services (example_args\<lparr>arg_t2 := True\<rparr>) example_world)) \<and>
   trace (snd (parse_args example_services (example_args\<lparr>arg_t2 := True\<rparr>) example_world)) =
     [MakeDirs ''/out'']"
proof -
  let ?a = "example_args\<lparr>arg_t2 := True\<rparr>"
  have h1: "arg_dicom ?a = Some [''/knee'']" by (simp add: example_args_def)
  have h2: "''/knee'' \<in> dirs example_world" by (simp add: example_world_def)
  have h3: "arg_save ?a = Some ''/out''" by (simp add: example_args_def)
  have h4: "''/out'' \<noteq> ''''" by simp
  have h5: "creatable example_world ''/out''"
    by (simp add: creatable_def example_world_def ancestors_out)
  have h6: "arg_t2 ?a" by (simp add: example_args_def)
  have h7: "\<not> arg_dess ?a" by (simp add: example_args_def)
  note th = t2_check_after_makedirs [OF h1 h2 h3 h4 h5 h6 h7, of example_services]
  from th have r1: "fst (parse_args example_services ?a example_world) =
      Inl (ValueError t2_needs_dess_msg)"
    by (rule conjunct1)
  from th have r2: "''/out'' \<in> dirs (snd (parse_args example_services ?a example_world))"
    by (rule conjunct1 [OF conjunct2])
  from th have "trace (snd (parse_args example_services ?a example_world)) =
      trace example_world @ [MakeDirs ''/out'']"
    by (rule conjunct2 [OF conjunct2])
  then have r3: "trace (snd (parse_args example_services ?a example_world)) = [MakeDirs ''/out'']"
    by (simp add: example_world_def)
  show ?thesis
    by (intro conjI) (rule h1 h2 h3 h5 h6 h7 r1 r2 r3)+
qed

text \<open>
  Claim C2 as stated fails: with \<open>--t2\<close>, no \<open>--dess\<close> and a dicom path that is not
  a directory, the error is the \<open>NotADirectoryError\<close> of line 121, not the
  configuration error.
\<close>

theorem t2_without_dess_counterexample:
  "arg_t2 (example_args\<lparr>arg_dicom := Some [''/missing''], arg_t2 := True\<rparr>) \<and>
   \<not> arg_dess (example_args\<lparr>arg_dicom := Some [''/missing''], arg_t2 := True\<rparr>) \<and>
   fst (parse_args example_services
          (example_args\<lparr>arg_dicom := Some [''/missing''], arg_t2 := True\<rparr>) example_world) =
     Inl (NotADirectoryError (not_a_directory_msg ''/missing'')) \<and>
   fst (parse_args example_services
          (example_args\<lparr>arg_dicom := Some [''/missing''], arg_t2 := True\<rparr>) example_world) \<noteq>
     Inl (ValueError t2_needs_dess_msg)"
  by (simp add: example_args_def example_world_def parse_args_def resolve_args_def isdir_def)

text \<open>
  Claim C2, amended. Every invocation with \<open>--t2\<close> and without \<open>--dess\<close> fails, and
  no DICOM loading has been attempted by then. The failure is the configuration error
  (the \<open>ValueError\<close> of line 133) whenever argument resolution gets as far as line 132:
  the dicom path is an existing directory, and the save path is the default, an existing
  directory, or a path that does not exist and that \<open>os.makedirs\<close> can create.
\<close>

theorem t2_without_dess_fails_before_loading:
  assumes "arg_t2 a" and "\<not> arg_dess a"
  shows "(\<exists>e. fst (parse_args c a w) = Inl e) \<and>
         (\<exists>evs. trace (snd (parse_args c a w)) = trace w @ evs \<and>
                (\<forall>p x. LoadDicom p x \<notin> set evs)) \<and>
         (\<forall>d ds s. arg_dicom a = Some (d # ds) \<and> d \<in> dirs w \<and> arg_save a = Some s \<and>
              (s = '''' \<or> s \<in> dirs w \<or> creatable w s) \<longrightarrow>
            fst (parse_args c a w) = Inl (ValueError t2_needs_dess_msg))"
proof -
  from resolve_args_t2_fails [OF assms, of c w] obtain e evs where
    e: "fst (resolve_args c a w) = Inl e" and
    evs: "trace (snd (resolve_args c a w)) = trace w @ evs" "\<forall>ev\<in>set evs. \<exists>p. ev = MakeDirs p"
    by blast
  have p: "parse_args c a w = (Inl e, snd (resolve_args c a w))"
    using parse_args_resolve_fail [OF e] .
  have 1: "\<exists>e. fst (parse_args c a w) = Inl e" using p by simp
  have 2: "\<exists>evs. trace (snd (parse_args c a w)) = trace w @ evs \<and>
                (\<forall>p x. LoadDicom p x \<notin> set evs)"
    using p evs by auto
  have 3: "fst (parse_args c a w) = Inl (ValueError t2_needs_dess_msg)"
    if "arg_dicom a = Some (d # ds) \<and> d \<in> dirs w \<and> arg_save a = Some s \<and>
        (s = '''' \<or> s \<in> dirs w \<or> creatable w s)" for d ds s
  proof -
    have "fst (resolve_args c a w) = Inl (ValueError t2_needs_dess_msg)"
      using that assms
      by (auto simp: resolve_args_def isdir_def makedirs_def creatable_def Let_def
          split: option.splits)
    with e p show ?thesis by simp
  qed
  from 1 2 3 show ?thesis by blast
qed

theorem t2_without_dess_fails_before_loading_witness:
  "arg_t2 (example_args\<lparr>arg_t2 := True\<rparr>) \<and> \<not> arg_dess (example_args\<lparr>arg_t2 := True\<rparr>) \<and>
   arg_dicom (example_args\<lparr>arg_t2 := True\<rparr>) = Some [''/knee''] \<and>
   ''/knee'' \<in> dirs example_world \<and>
   arg_save (example_args\<lparr>arg_t2 := True\<rparr>) = Some ''/out'' \<and>
   creatable example_world ''/out'' \<and>
   fst (parse_args example_services (example_args\<lparr>arg_t2 := True\<rparr>) example_world) =
     Inl (ValueError t2_needs_dess_msg) \<and>
   (\<exists>evs. trace (snd (parse_args example_services (example_args\<lparr>arg_t2 := True\<rparr>)
                      example_world)) = trace example_world @ evs \<and>
          (\<forall>p x. LoadDicom p x \<notin> set evs))"
proof -
  let ?a = "example_args\<lparr>arg_t2 := True\<rparr>"
  have h1: "arg_t2 ?a" and h2: "\<not> arg_dess ?a"
    by (simp_all add: example_args_def)
  note th = t2_without_dess_fails_before_loading [OF h1 h2, of example_services example_world]
  from th have A: "\<exists>evs. trace (snd (parse_args example_services ?a example_world)) =
                        trace example_world @ evs \<and> (\<forall>p x. LoadDicom p x \<notin> set evs)"
    by (rule conjunct1 [OF conjunct2])
  from th have B: "\<forall>d ds s. arg_dicom ?a = Some (d # ds) \<and> d \<in> dirs example_world \<and>
        arg_save ?a = Some s \<and>
        (s = [] \<or> s \<in> dirs example_world \<or> creatable example_world s) \<longrightarrow>
      fst (parse_args example_services ?a example_world) = Inl (ValueError t2_needs_dess_msg)"
    by (rule conjunct2 [OF conjunct2])
  have p1: "arg_dicom ?a = Some [''/knee'']" by (simp add: example_args_def)
  have p2: "''/knee'' \<in> dirs example_world" by (simp add: example_world_def)
  have p3: "arg_save ?a = Some ''/out''" by (simp add: example_args_def)
  have p4: "creatable example_world ''/out''"
    by (simp add: creatable_def example_world_def ancestors_out)
  from B [rule_format, of "''/knee''" "[]" "''/out''"] p1 p2 p3 p4
  have C: "fst (parse_args example_services ?a example_world) = Inl (ValueError t2_needs_dess_msg)"
    by simp
  show ?thesis
    by (intro conjI) (rule h1 h2 p1 p2 p3 p4 C A)+
qed

text \<open>
  Claim C6. In every run of \<open>generate_mask\<close>, whatever the echo count and the tissues, a
  volume that is handed to the Segmentation Service is the whitened sub-volume of index 0
  of the echo split of the loaded volume. The second part says that the call does take
  place: when loading, splitting and whitening return, the first requested tissue is
  segmented on that volume.
\<close>

theorem segmentation_input_is_whitened_first_echo:
  assumes "generate_mask c dp sp ts ext echos w = (res, w')"
  shows "\<exists>evs. trace w' = trace w @ evs \<and>
      (\<forall>v t. Segment v t \<in> set evs \<longrightarrow>
         (\<exists>v0 ref subs. load_dicom c dp ext = Inr (v0, ref) \<and>
            split_volume c v0 echos = Inr subs \<and> subs \<noteq> [] \<and>
            whiten_volume c (subs ! 0) = Inr v)) \<and>
      (\<forall>v0 ref subs vol t rest. load_dicom c dp ext = Inr (v0, ref) \<and>
            split_volume c v0 echos = Inr subs \<and> subs \<noteq> [] \<and>
            whiten_volume c (subs ! 0) = Inr vol \<and> ts = t # rest \<longrightarrow>
         Segment vol t \<in> set evs)"
proof -
  from generate_mask_trace [OF assms] obtain evs where
    tr: "trace w' = trace w @ LoadDicom dp ext # evs" and
    evs: "evs = [] \<or>
          (\<exists>v0 ref subs vol. load_dicom c dp ext = Inr (v0, ref) \<and>
              split_volume c v0 echos = Inr subs \<and> subs \<noteq> [] \<and>
              whiten_volume c (subs ! 0) = Inr vol \<and> (\<forall>e\<in>set evs. loop_event vol e))"
    by blast
  let ?evs = "LoadDicom dp ext # evs"
  have 1: "\<exists>v0 ref subs. load_dicom c dp ext = Inr (v0, ref) \<and>
            split_volume c v0 echos = Inr subs \<and> subs \<noteq> [] \<and>
            whiten_volume c (subs ! 0) = Inr v"
    if "Segment v t \<in> set ?evs" for v t
  proof -
    from that have mem: "Segment v t \<in> set evs" by simp
    then have "evs \<noteq> []" by auto
    with evs obtain v0 ref subs vol where ok: "load_dicom c dp ext = Inr (v0, ref)"
      "split_volume c v0 echos = Inr subs" "subs \<noteq> []" "whiten_volume c (subs ! 0) = Inr vol"
      and le: "\<forall>e\<in>set evs. loop_event vol e"
      by blast
    from bspec [OF le mem] have "v = vol" by simp
    with ok show ?thesis by blast
  qed
  have 2: "Segment vol t \<in> set ?evs"
    if "load_dicom c dp ext = Inr (v0, ref) \<and> split_volume c v0 echos = Inr subs \<and>
        subs \<noteq> [] \<and> whiten_volume c (subs ! 0) = Inr vol \<and> ts = t # rest"
    for v0 ref subs vol t rest
  proof -
    from that assms have gm: "generate_mask c dp sp (t # rest) ext echos w = (res, w')"
      by simp
    from that generate_mask_first_call [OF _ _ _ _ gm, of v0 ref subs vol]
    obtain evs2 where "trace w' = trace w @ LoadDicom dp ext # Print [] #
           Print (''Segmenting '' @ t @ ''...'') # Segment vol t # evs2"
      by blast
    with tr have "evs = Print [] # Print (''Segmenting '' @ t @ ''...'') # Segment vol t # evs2"
      by simp
    then show ?thesis by simp
  qed
  from tr 1 2 show ?thesis by blast
qed

theorem segmentation_input_is_whitened_first_echo_witness:
  "\<exists>res w'. generate_mask example_services ''/knee'' ''/out'' [''meniscus''] None 2
               example_world = (res, w') \<and>
     Segment \<lparr>shape = [1, 1, 2], voxels = [3, - 3]\<rparr> ''meniscus'' \<in> set (trace w')"
proof -
  obtain res w' where gm: "generate_mask example_services ''/knee'' ''/out'' [''meniscus''] None 2
               example_world = (res, w')"
    by (metis surj_pair)
  from segmentation_input_is_whitened_first_echo [OF gm] obtain evs where
    tr: "trace w' = trace example_world @ evs" and
    pos: "\<forall>v0 ref subs vol t rest.
            load_dicom example_services ''/knee'' None = Inr (v0, ref) \<and>
            split_volume example_services v0 2 = Inr subs \<and> subs \<noteq> [] \<and>
            whiten_volume example_services (subs ! 0) = Inr vol \<and>
            [''meniscus''] = t # rest \<longrightarrow>
            Segment vol t \<in> set evs"
    by (elim exE conjE)
  have pre: "load_dicom example_services ''/knee'' None = Inr (knee_volume, ''ref'') \<and>
      split_volume example_services knee_volume 2 =
        Inr [\<lparr>shape = [1, 1, 2], voxels = [7, 1]\<rparr>, \<lparr>shape = [1, 1, 2], voxels = [2, 6]\<rparr>] \<and>
      [\<lparr>shape = [1, 1, 2], voxels = [7, 1]\<rparr>, \<lparr>shape = [1, 1, 2], voxels = [2, 6::int]\<rparr>] \<noteq> [] \<and>
      whiten_volume example_services
        ([\<lparr>shape = [1, 1, 2], voxels = [7, 1]\<rparr>, \<lparr>shape = [1, 1, 2], voxels = [2, 6]\<rparr>] ! 0) =
        Inr \<lparr>shape = [1, 1, 2], voxels = [3, - 3]\<rparr> \<and>
      [''meniscus''] = ''meniscus'' # []"
    by (simp add: example_defs)
  from pos [rule_format, OF pre]
  have "Segment \<lparr>shape = [1, 1, 2], voxels = [3, - 3]\<rparr> ''meniscus'' \<in> set evs" .
  with tr have "Segment \<lparr>shape = [1, 1, 2], voxels = [3, - 3]\<rparr> ''meniscus'' \<in> set (trace w')"
    by simp
  with gm show ?thesis by blast
qed

text \<open>
  Claim C4. A pass through the loop body whose mask has not the shape of the input volume
  ends with the \<open>AssertionError\<close> of line 34, the dict of masks is as before, and no
  file has been written in that pass. Conversely, every mask that a run of
  \<open>generate_mask\<close> hands to the Mask Writer has the shape of the whitened first echo.
\<close>

theorem shape_assertion_guards_write:
  "(models_generate_mask c vol t = Inr m \<and> shape m \<noteq> shape vol \<longrightarrow>
      (\<exists>w'. segment_loop c vol sp (t # rest) (masks, w) = (Some AssertionError, masks, w') \<and>
            writes w' = writes w \<and> files w' = files w)) \<and>
   (generate_mask c dp sp ts ext echos w0 = (res, w1) \<longrightarrow>
      (\<exists>evs. trace w1 = trace w0 @ evs \<and>
         (\<forall>p mk. Write3d p mk \<in> set evs \<longrightarrow>
            (\<exists>v0 ref subs vol'. load_dicom c dp ext = Inr (v0, ref) \<and>
               split_volume c v0 echos = Inr subs \<and> subs \<noteq> [] \<and>
               whiten_volume c (subs ! 0) = Inr vol' \<and> shape mk = shape vol'))))"
proof (intro conjI impI)
  assume "models_generate_mask c vol t = Inr m \<and> shape m \<noteq> shape vol"
  then have "segment_loop c vol sp (t # rest) (masks, w) =
           (Some AssertionError, masks,
            w\<lparr>trace := trace w @ [Print (''Segmenting '' @ t @ ''...''), Segment vol t]\<rparr>)"
    using segment_loop_assert [of c vol t m] by blast
  moreover have "writes (w\<lparr>trace := trace w @
      [Print (''Segmenting '' @ t @ ''...''), Segment vol t]\<rparr>) = writes w"
    by (simp add: writes_def map_filter_append)
  ultimately show "\<exists>w'. segment_loop c vol sp (t # rest) (masks, w) =
      (Some AssertionError, masks, w') \<and> writes w' = writes w \<and> files w' = files w"
    by simp
next
  assume gm: "generate_mask c dp sp ts ext echos w0 = (res, w1)"
  from generate_mask_trace [OF gm] obtain evs where
    tr: "trace w1 = trace w0 @ LoadDicom dp ext # evs" and
    evs: "evs = [] \<or>
          (\<exists>v0 ref subs vol. load_dicom c dp ext = Inr (v0, ref) \<and>
              split_volume c v0 echos = Inr subs \<and> subs \<noteq> [] \<and>
              whiten_volume c (subs ! 0) = Inr vol \<and> (\<forall>e\<in>set evs. loop_event vol e))"
    by blast
  have "\<exists>v0 ref subs vol'. load_dicom c dp ext = Inr (v0, ref) \<and>
               split_volume c v0 echos = Inr subs \<and> subs \<noteq> [] \<and>
               whiten_volume c (subs ! 0) = Inr vol' \<and> shape mk = shape vol'"
    if "Write3d p mk \<in> set (LoadDicom dp ext # evs)" for p mk
  proof -
    from that have mem: "Write3d p mk \<in> set evs" by simp
    then have "evs \<noteq> []" by auto
    with evs obtain v0 ref subs vol where ok: "load_dicom c dp ext = Inr (v0, ref)"
      "split_volume c v0 echos = Inr subs" "subs \<noteq> []" "whiten_volume c (subs ! 0) = Inr vol"
      and le: "\<forall>e\<in>set evs. loop_event vol e"
      by blast
    from bspec [OF le mem] have "shape mk = shape vol" by simp
    with ok show ?thesis by blast
  qed
  with tr show "\<exists>evs. trace w1 = trace w0 @ evs \<and>
         (\<forall>p mk. Write3d p mk \<in> set evs \<longrightarrow>
            (\<exists>v0 ref subs vol'. load_dicom c dp ext = Inr (v0, ref) \<and>
               split_volume c v0 echos = Inr subs \<and> subs \<noteq> [] \<and>
               whiten_volume c (subs ! 0) = Inr vol' \<and> shape mk = shape vol'))"
    by blast
qed

theorem shape_assertion_guards_write_witness:
  "models_generate_mask flat_meniscus_services knee_volume ''meniscus'' =
     Inr \<lparr>shape = [4], voxels = [True, True, True, True]\<rparr> \<and>
   shape \<lparr>shape = [4], voxels = [True, True, True, True]\<rparr> \<noteq> shape knee_volume \<and>
   (\<exists>w'. segment_loop flat_meniscus_services knee_volume ''/out'' [''meniscus'']
           ([], example_world) = (Some AssertionError, [], w') \<and>
         writes w' = writes example_world \<and> files w' = files example_world) \<and>
   (\<exists>evs. trace (snd (generate_mask flat_meniscus_services ''/knee'' ''/out''
                       [''femoral_cartilage'', ''meniscus''] None 1 example_world)) =
            trace example_world @ evs \<and>
      (\<forall>p mk. Write3d p mk \<in> set evs \<longrightarrow>
         (\<exists>v0 ref subs vol'. load_dicom flat_meniscus_services ''/knee'' None = Inr (v0, ref) \<and>
            split_volume flat_meniscus_services v0 1 = Inr subs \<and> subs \<noteq> [] \<and>
            whiten_volume flat_meniscus_services (subs ! 0) = Inr vol' \<and>
            shape mk = shape vol')))"
    (is "?H1 \<and> ?H2 \<and> ?A \<and> ?B")
proof -
  have h: "models_generate_mask flat_meniscus_services knee_volume ''meniscus'' =
     Inr \<lparr>shape = [4], voxels = [True, True, True, True]\<rparr> \<and>
   shape \<lparr>shape = [4], voxels = [True, True, True, True]\<rparr> \<noteq> shape knee_volume"
    by (simp add: example_defs)
  note th = shape_assertion_guards_write [where c = flat_meniscus_services and vol = knee_volume
      and t = "''meniscus''" and m = "\<lparr>shape = [4], voxels = [True, True, True, True]\<rparr>"
      and sp = "''/out''" and rest = "[]" and masks = "[]" and w = example_world
      and dp = "''/knee''" and ts = "[''femoral_cartilage'', ''meniscus'']" and ext = None
      and echos = 1 and ?w0.0 = example_world
      and res = "fst (generate_mask flat_meniscus_services ''/knee'' ''/out''
                       [''femoral_cartilage'', ''meniscus''] None 1 example_world)"
      and ?w1.0 = "snd (generate_mask flat_meniscus_services ''/knee'' ''/out''
                       [''femoral_cartilage'', ''meniscus''] None 1 example_world)"]
  from th have "models_generate_mask flat_meniscus_services knee_volume ''meniscus'' =
     Inr \<lparr>shape = [4], voxels = [True, True, True, True]\<rparr> \<and>
   shape \<lparr>shape = [4], voxels = [True, True, True, True]\<rparr> \<noteq> shape knee_volume \<longrightarrow>
   (\<exists>w'. segment_loop flat_meniscus_services knee_volume ''/out'' [''meniscus'']
           ([], example_world) = (Some AssertionError, [], w') \<and>
         writes w' = writes example_world \<and> files w' = files example_world)"
    by (rule conjunct1)
  from this h have A: ?A
    by (rule mp)
  from th have B: ?B
    by (rule mp [OF conjunct2]) simp
  from h have H1: ?H1 and H2: ?H2 by (rule conjunct1, rule conjunct2)
  show ?thesis
    by (intro conjI) (rule H1 H2 A B)+
qed

text \<open>
  Claim C10. Let the tissues \<open>pre\<close> pass the loop body and let the mask of the next
  tissue \<open>t\<close> have the wrong shape. Then the loop ends with the \<open>AssertionError\<close>,
  the masks accumulated so far are those of \<open>pre\<close> and no others, and the files written
  are those of \<open>pre\<close>, which stay where they are. \<open>generate_mask\<close> passes the error
  on and leaves these files behind.
\<close>

theorem mask_writing_is_incremental:
  assumes "\<forall>u\<in>set pre. tissue_ok c vol sp u"
    and "models_generate_mask c vol t = Inr m" and "shape m \<noteq> shape vol"
  shows "(\<exists>masks' w'. segment_loop c vol sp (pre @ t # post) ([], w) =
              (Some AssertionError, masks', w') \<and>
            set (keys masks') = set pre \<and> (distinct pre \<longrightarrow> keys masks' = pre) \<and>
            (\<forall>u\<in>set pre. map_of masks' u = Some (the_mask c vol u)) \<and>
            map fst (writes w') = map fst (writes w) @ map (mask_path sp) pre \<and>
            files w' = files w \<union> mask_path sp ` set pre) \<and>
         (\<forall>dp ext echos v0 ref subs. load_dicom c dp ext = Inr (v0, ref) \<and>
            split_volume c v0 echos = Inr subs \<and> subs \<noteq> [] \<and>
            whiten_volume c (subs ! 0) = Inr vol \<longrightarrow>
            (\<exists>w'. generate_mask c dp sp (pre @ t # post) ext echos w = (Inl AssertionError, w') \<and>
               map fst (writes w') = map fst (writes w) @ map (mask_path sp) pre \<and>
               files w' = files w \<union> mask_path sp ` set pre))"
proof -
  note loop = segment_loop_prefix_assert [OF assms]
  let ?masks = "fold (\<lambda>t d. dict_set d t (the_mask c vol t)) pre []"
  have k1: "set (keys ?masks) = set pre" by (simp add: keys_fold_dict_set keys_Nil)
  have k2: "distinct pre \<longrightarrow> keys ?masks = pre"
    by (simp add: keys_fold_dict_set_distinct keys_Nil)
  have k3: "\<forall>u\<in>set pre. map_of ?masks u = Some (the_mask c vol u)"
    by (simp add: map_of_fold_dict_set)
  have wr: "map fst (writes (wa\<lparr>trace := trace wa @ eva @ concat (map (step_events c vol sp) pre) @
                          [Print (''Segmenting '' @ t @ ''...''), Segment vol t],
              files := F\<rparr>)) = map fst (writes wa) @ map fst (List.map_filter written eva) @ map (mask_path sp) pre"
    for wa :: "('a, 'b) world" and eva F
    by (simp add: writes_def map_filter_append writes_steps comp_def)
  have A: "\<exists>masks' w'. segment_loop c vol sp (pre @ t # post) ([], w) =
              (Some AssertionError, masks', w') \<and>
            set (keys masks') = set pre \<and> (distinct pre \<longrightarrow> keys masks' = pre) \<and>
            (\<forall>u\<in>set pre. map_of masks' u = Some (the_mask c vol u)) \<and>
            map fst (writes w') = map fst (writes w) @ map (mask_path sp) pre \<and>
            files w' = files w \<union> mask_path sp ` set pre"
    using loop [of post "[]" w] k1 k2 k3 wr [where wa = w and eva = "[]"]
    by (simp add: List.map_filter_def)
  have B: "\<exists>w'. generate_mask c dp sp (pre @ t # post) ext echos w = (Inl AssertionError, w') \<and>
               map fst (writes w') = map fst (writes w) @ map (mask_path sp) pre \<and>
               files w' = files w \<union> mask_path sp ` set pre"
    if "load_dicom c dp ext = Inr (v0, ref) \<and> split_volume c v0 echos = Inr subs \<and>
        subs \<noteq> [] \<and> whiten_volume c (subs ! 0) = Inr vol" for dp ext echos v0 ref subs
  proof -
    let ?w1 = "w\<lparr>trace := trace w @ [LoadDicom dp ext, Print []]\<rparr>"
    from that have gm: "generate_mask c dp sp (pre @ t # post) ext echos w =
     (case segment_loop c vol sp (pre @ t # post) ([], ?w1) of
        (Some e, _, w2) \<Rightarrow> (Inl e, w2)
      | (None, masks, w2) \<Rightarrow> (Inr masks, w2))"
      using generate_mask_loop [of c dp ext v0 ref echos subs vol sp "pre @ t # post" w] by blast
    show ?thesis
      unfolding gm loop [of post "[]" ?w1]
      using wr [where wa = w and eva = "[LoadDicom dp ext, Print []]"]
      by (simp add: List.map_filter_def)
  qed
  have B': "\<forall>dp ext echos v0 ref subs. load_dicom c dp ext = Inr (v0, ref) \<and>
            split_volume c v0 echos = Inr subs \<and> subs \<noteq> [] \<and>
            whiten_volume c (subs ! 0) = Inr vol \<longrightarrow>
            (\<exists>w'. generate_mask c dp sp (pre @ t # post) ext echos w = (Inl AssertionError, w') \<and>
               map fst (writes w') = map fst (writes w) @ map (mask_path sp) pre \<and>
               files w' = files w \<union> mask_path sp ` set pre)"
    by (intro allI impI) (rule B)
  from A B' show ?thesis by (rule conjI)
qed

theorem mask_writing_is_incremental_witness:
  "tissue_ok flat_meniscus_services knee_volume ''/out'' ''femoral_cartilage'' \<and>
   models_generate_mask flat_meniscus_services knee_volume ''meniscus'' =
     Inr \<lparr>shape = [4], voxels = [True, True, True, True]\<rparr> \<and>
   shape \<lparr>shape = [4], voxels = [True, True, True, True]\<rparr> \<noteq> shape knee_volume \<and>
   (\<exists>masks' w'. segment_loop flat_meniscus_services knee_volume ''/out''
        [''femoral_cartilage'', ''meniscus'', ''patellar_cartilage''] ([], example_world) =
          (Some AssertionError, masks', w') \<and>
      keys masks' = [''femoral_cartilage''] \<and>
      map fst (writes w') = [''/out/femoral_cartilage.tiff''] \<and>
      files w' = {''/out/femoral_cartilage.tiff''})"
proof -
  have h0: "tissue_ok flat_meniscus_services knee_volume ''/out'' ''femoral_cartilage''"
    by (simp add: tissue_ok_def mask_path_def path_join_def example_defs)
  then have h1: "\<forall>u\<in>set [''femoral_cartilage''].
      tissue_ok flat_meniscus_services knee_volume ''/out'' u"
    by simp
  have h2: "models_generate_mask flat_meniscus_services knee_volume ''meniscus'' =
     Inr \<lparr>shape = [4], voxels = [True, True, True, True]\<rparr>"
    by (simp add: example_defs)
  have h3: "shape \<lparr>shape = [4], voxels = [True, True, True, True]\<rparr> \<noteq> shape knee_volume"
    by (simp add: example_defs)
  from mask_writing_is_incremental [OF h1 h2 h3, of "[''patellar_cartilage'']" example_world]
  obtain masks' w' where
    r: "segment_loop flat_meniscus_services knee_volume ''/out''
          ([''femoral_cartilage''] @ ''meniscus'' # [''patellar_cartilage''])
          ([], example_world) = (Some AssertionError, masks', w')" and
    k: "distinct [''femoral_cartilage''] \<longrightarrow> keys masks' = [''femoral_cartilage'']" and
    wr: "map fst (writes w') = map fst (writes example_world) @
           map (mask_path ''/out'') [''femoral_cartilage'']" and
    f: "files w' = files example_world \<union> mask_path ''/out'' ` set [''femoral_cartilage'']"
    by (elim exE conjE)
  from r have r': "segment_loop flat_meniscus_services knee_volume ''/out''
        [''femoral_cartilage'', ''meniscus'', ''patellar_cartilage''] ([], example_world) =
          (Some AssertionError, masks', w')"
    by simp
  from k have k': "keys masks' = [''femoral_cartilage'']" by simp
  from wr have wr': "map fst (writes w') = [''/out/femoral_cartilage.tiff'']"
    by (simp add: writes_def example_world_def mask_path_def path_join_def List.map_filter_simps)
  from f have f': "files w' = {''/out/femoral_cartilage.tiff''}"
    by (simp add: example_world_def mask_path_def path_join_def)
  have "\<exists>masks' w'. segment_loop flat_meniscus_services knee_volume ''/out''
        [''femoral_cartilage'', ''meniscus'', ''patellar_cartilage''] ([], example_world) =
          (Some AssertionError, masks', w') \<and>
      keys masks' = [''femoral_cartilage''] \<and>
      map fst (writes w') = [''/out/femoral_cartilage.tiff''] \<and>
      files w' = {''/out/femoral_cartilage.tiff''}"
    by (rule exI [of _ masks'], rule exI [of _ w'], intro conjI) (rule r' k' wr' f')+
  with h0 h2 h3 show ?thesis by (simp only: simp_thms)
qed

lemma select_tissues_set:
  "set (select_tissues c a) =
     (if \<not> arg_f a \<and> \<not> arg_t a \<and> \<not> arg_m a \<and> \<not> arg_p a
      then {FEMORAL_CARTILAGE_STR c, TIBIAL_CARTILAGE_STR c, MENISCUS_STR c,
            PATELLAR_CARTILAGE_STR c}
      else (if arg_f a then {FEMORAL_CARTILAGE_STR c} else {}) \<union>
           (if arg_t a then {TIBIAL_CARTILAGE_STR c} else {}) \<union>
           (if arg_m a then {MENISCUS_STR c} else {}) \<union>
           (if arg_p a then {PATELLAR_CARTILAGE_STR c} else {}))"
proof (cases "\<not> arg_f a \<and> \<not> arg_t a \<and> \<not> arg_m a \<and> \<not> arg_p a")
  case True
  then show ?thesis by (simp add: select_tissues_default)
next
  case False
  then have "arg_f a \<or> arg_t a \<or> arg_m a \<or> arg_p a" by blast
  from select_tissues_flags [OF this, of c] False show ?thesis by simp
qed

text \<open>
  Claim C5. For each of the sixteen combinations of \<open>-f\<close>, \<open>-t\<close>, \<open>-m\<close>, \<open>-p\<close>
  the keys of the mapping that \<open>generate_mask\<close> returns are the requested tissues, all
  four when no flag is given. The keys come in the order of the request where the tissue
  constants of \<open>models\<close> differ from each other; without a flag this is the order
  femoral cartilage, tibial cartilage, meniscus, patellar cartilage.
\<close>

theorem mask_keys_are_requested_tissues:
  assumes "generate_mask c dp sp (select_tissues c a) ext echos w = (Inr masks, w')"
  shows "set (keys masks) =
           (if \<not> arg_f a \<and> \<not> arg_t a \<and> \<not> arg_m a \<and> \<not> arg_p a
            then {FEMORAL_CARTILAGE_STR c, TIBIAL_CARTILAGE_STR c, MENISCUS_STR c,
                  PATELLAR_CARTILAGE_STR c}
            else (if arg_f a then {FEMORAL_CARTILAGE_STR c} else {}) \<union>
                 (if arg_t a then {TIBIAL_CARTILAGE_STR c} else {}) \<union>
                 (if arg_m a then {MENISCUS_STR c} else {}) \<union>
                 (if arg_p a then {PATELLAR_CARTILAGE_STR c} else {})) \<and>
         (distinct (select_tissues c a) \<longrightarrow> keys masks = select_tissues c a) \<and>
         (\<not> arg_f a \<and> \<not> arg_t a \<and> \<not> arg_m a \<and> \<not> arg_p a \<and>
          distinct [FEMORAL_CARTILAGE_STR c, TIBIAL_CARTILAGE_STR c, MENISCUS_STR c,
                    PATELLAR_CARTILAGE_STR c] \<longrightarrow>
          keys masks = [FEMORAL_CARTILAGE_STR c, TIBIAL_CARTILAGE_STR c, MENISCUS_STR c,
                        PATELLAR_CARTILAGE_STR c])"
    (is "?A \<and> ?B \<and> ?C")
proof -
  note eff = generate_mask_success_effects [OF assms]
  have A: ?A using eff(4) by (simp only: select_tissues_set)
  have B: ?B using eff(5) by blast
  have C: ?C
  proof (intro impI)
    assume h: "\<not> arg_f a \<and> \<not> arg_t a \<and> \<not> arg_m a \<and> \<not> arg_p a \<and>
          distinct [FEMORAL_CARTILAGE_STR c, TIBIAL_CARTILAGE_STR c, MENISCUS_STR c,
                    PATELLAR_CARTILAGE_STR c]"
    then have sel: "select_tissues c a = [FEMORAL_CARTILAGE_STR c, TIBIAL_CARTILAGE_STR c,
        MENISCUS_STR c, PATELLAR_CARTILAGE_STR c]"
      by (simp add: select_tissues_default)
    with h have "distinct (select_tissues c a)" by simp
    from eff(5) [OF this] sel
    show "keys masks = [FEMORAL_CARTILAGE_STR c, TIBIAL_CARTILAGE_STR c, MENISCUS_STR c,
                        PATELLAR_CARTILAGE_STR c]"
      by simp
  qed
  from A B C show ?thesis by (intro conjI)
qed

theorem mask_keys_are_requested_tissues_witness:
  "\<exists>masks w'. generate_mask example_services ''/knee'' ''/out''
        (select_tissues example_services example_args) None 1 example_world = (Inr masks, w') \<and>
     distinct (select_tissues example_services example_args) \<and>
     set (keys masks) = {''femoral_cartilage'', ''meniscus''} \<and>
     keys masks = [''femoral_cartilage'', ''meniscus'']"
proof -
  have "\<exists>masks w'. generate_mask example_services ''/knee'' ''/out''
        (select_tissues example_services example_args) None 1 example_world = (Inr masks, w')"
    by (simp add: example_defs select_tissues_def generate_mask_def path_join_def Let_def
        List.map_filter_simps)
  then obtain masks w' where gm: "generate_mask example_services ''/knee'' ''/out''
        (select_tissues example_services example_args) None 1 example_world = (Inr masks, w')"
    by (elim exE)
  have sel: "select_tissues example_services example_args = [''femoral_cartilage'', ''meniscus'']"
    by (simp add: example_defs select_tissues_def List.map_filter_simps)
  have d: "distinct (select_tissues example_services example_args)"
    by (simp add: sel)
  note th = mask_keys_are_requested_tissues [OF gm]
  from th have "set (keys masks) =
           (if \<not> arg_f example_args \<and> \<not> arg_t example_args \<and> \<not> arg_m example_args \<and>
               \<not> arg_p example_args
            then {FEMORAL_CARTILAGE_STR example_services, TIBIAL_CARTILAGE_STR example_services,
                  MENISCUS_STR example_services, PATELLAR_CARTILAGE_STR example_services}
            else (if arg_f example_args then {FEMORAL_CARTILAGE_STR example_services} else {}) \<union>
                 (if arg_t example_args then {TIBIAL_CARTILAGE_STR example_services} else {}) \<union>
                 (if arg_m example_args then {MENISCUS_STR example_services} else {}) \<union>
                 (if arg_p example_args then {PATELLAR_CARTILAGE_STR example_services} else {}))"
    by (rule conjunct1)
  then have s: "set (keys masks) = {''femoral_cartilage'', ''meniscus''}"
    by (auto simp: example_args_def example_services_def)
  from th have "distinct (select_tissues example_services example_args) \<longrightarrow>
      keys masks = select_tissues example_services example_args"
    by (rule conjunct1 [OF conjunct2])
  with d sel have k: "keys masks = [''femoral_cartilage'', ''meniscus'']" by simp
  show ?thesis
    by (rule exI [of _ masks], rule exI [of _ w'], intro conjI) (rule gm d s k)+
qed



text \<open>
  Claim C8 as stated fails in the default case: when \<open>--save\<close> is absent the save path
  is the dicom path, and a save path that does not exist is then a dicom path that does not
  exist. Line 121 raises before line 124 is reached, so the directory is not created and no
  mask is written.
\<close>

theorem save_dir_default_counterexample:
  "arg_save (example_args\<lparr>arg_dicom := Some [''/missing''], arg_save := Some ''''\<rparr>) = Some '''' \<and>
   ''/missing'' \<notin> dirs example_world \<and> ''/missing'' \<notin> files example_world \<and>
   fst (parse_args example_services
          (example_args\<lparr>arg_dicom := Some [''/missing''], arg_save := Some ''''\<rparr>)
          example_world) = Inl (NotADirectoryError (not_a_directory_msg ''/missing'')) \<and>
   ''/missing'' \<notin> dirs (snd (parse_args example_services
          (example_args\<lparr>arg_dicom := Some [''/missing''], arg_save := Some ''''\<rparr>)
          example_world)) \<and>
   trace (snd (parse_args example_services
          (example_args\<lparr>arg_dicom := Some [''/missing''], arg_save := Some ''''\<rparr>)
          example_world)) = []"
  by (simp add: example_args_def example_world_def parse_args_def resolve_args_def isdir_def)

text \<open>
  Claim C8, amended. With an existing dicom directory and an explicit save path that does
  not exist and that \<open>os.makedirs\<close> can create, argument resolution creates the save
  directory. When mask generation then
  completes, the files written are \<open>save_path/tissue.tiff\<close> for the requested tissues,
  one write per tissue in the order of the request, and no other file.
\<close>

theorem save_dir_created_then_masks_written:
  assumes "arg_dicom a = Some (d # ds)" and "d \<in> dirs w"
    and "arg_save a = Some s" and "s \<noteq> ''''" and "creatable w s"
  shows "s \<in> dirs (snd (resolve_args c a w)) \<and>
         trace (snd (resolve_args c a w)) = trace w @ [MakeDirs s] \<and>
         (\<forall>r w1 masks w2.
            resolve_args c a w = (Inr r, w1) \<and>
            generate_mask c (r_dicom_path r) (r_save_path r) (r_tissue_strs r) (r_dicom_ext r)
              (r_num_echos r) w1 = (Inr masks, w2) \<longrightarrow>
            snd (parse_args c a w) = w2 \<and> s \<in> dirs w2 \<and>
            map fst (writes w2) = map fst (writes w) @ map (mask_path s) (select_tissues c a) \<and>
            files w2 = files w \<union> mask_path s ` set (select_tissues c a))"
    (is "?A \<and> ?B \<and> ?C")
proof -
  note R = resolve_args_new_dir [OF assms, of c]
  have A: ?A using R by (simp add: Let_def split: option.splits)
  have B: ?B using R by (simp add: Let_def split: option.splits)
  have C: ?C
  proof (intro allI impI)
    fix r w1 masks w2
    assume h: "resolve_args c a w = (Inr r, w1) \<and>
            generate_mask c (r_dicom_path r) (r_save_path r) (r_tissue_strs r) (r_dicom_ext r)
              (r_num_echos r) w1 = (Inr masks, w2)"
    then have res: "resolve_args c a w = (Inr r, w1)" and
      gm: "generate_mask c (r_dicom_path r) (r_save_path r) (r_tissue_strs r) (r_dicom_ext r)
              (r_num_echos r) w1 = (Inr masks, w2)"
      by simp_all
    from res R have r: "r_save_path r = s" "r_tissue_strs r = select_tissues c a"
      by (auto simp: Let_def split: if_splits)
    from res A B have w1: "s \<in> dirs w1" "trace w1 = trace w @ [MakeDirs s]" by simp_all
    from res R have f1: "files w1 = files w"
      by (auto simp: Let_def split: if_splits option.splits)
    have wr1: "writes w1 = writes w"
      by (simp add: writes_def w1(2) map_filter_append)
    note eff = generate_mask_success_effects [OF gm]
    have p: "snd (parse_args c a w) = w2"
      using res gm by (simp add: parse_args_def)
    show "snd (parse_args c a w) = w2 \<and> s \<in> dirs w2 \<and>
            map fst (writes w2) = map fst (writes w) @ map (mask_path s) (select_tissues c a) \<and>
            files w2 = files w \<union> mask_path s ` set (select_tissues c a)"
      using p eff(1,2,3) r w1(1) f1 wr1 by simp
  qed
  from A B C show ?thesis by (intro conjI)
qed

theorem save_dir_created_then_masks_written_witness:
  "arg_dicom example_args = Some [''/knee''] \<and> ''/knee'' \<in> dirs example_world \<and>
   arg_save example_args = Some ''/out'' \<and> creatable example_world ''/out'' \<and>
   ''/out'' \<in> dirs (snd (resolve_args example_services example_args example_world)) \<and>
   fst (parse_args example_services example_args example_world) = Inr () \<and>
   map fst (writes (snd (parse_args example_services example_args example_world))) =
     [''/out/femoral_cartilage.tiff'', ''/out/meniscus.tiff''] \<and>
   files (snd (parse_args example_services example_args example_world)) =
     {''/out/femoral_cartilage.tiff'', ''/out/meniscus.tiff''}"
proof -
  have h1: "arg_dicom example_args = Some [''/knee'']" by (simp add: example_args_def)
  have h2: "''/knee'' \<in> dirs example_world" by (simp add: example_world_def)
  have h3: "arg_save example_args = Some ''/out''" by (simp add: example_args_def)
  have h4: "''/out'' \<noteq> []" by simp
  have h5: "creatable example_world ''/out''"
    by (simp add: creatable_def example_world_def ancestors_out)
  note th = save_dir_created_then_masks_written [OF h1 h2 h3 h4 h5, of example_services]
  from th have a: "''/out'' \<in> dirs (snd (resolve_args example_services example_args example_world))"
    by (rule conjunct1)
  from th have c: "\<forall>r w1 masks w2.
            resolve_args example_services example_args example_world = (Inr r, w1) \<and>
            generate_mask example_services (r_dicom_path r) (r_save_path r) (r_tissue_strs r)
              (r_dicom_ext r) (r_num_echos r) w1 = (Inr masks, w2) \<longrightarrow>
            snd (parse_args example_services example_args example_world) = w2 \<and>
            ''/out'' \<in> dirs w2 \<and>
            map fst (writes w2) = map fst (writes example_world) @
              map (mask_path ''/out'') (select_tissues example_services example_args) \<and>
            files w2 = files example_world \<union>
              mask_path ''/out'' ` set (select_tissues example_services example_args)"
    by (rule conjunct2 [OF conjunct2])
  have "\<exists>r w1. resolve_args example_services example_args example_world = (Inr r, w1)"
    by (simp add: example_defs resolve_args_def isdir_def makedirs_def ancestors_out Let_def)
  then obtain r w1 where
    res: "resolve_args example_services example_args example_world = (Inr r, w1)"
    by (elim exE)
  have p: "fst (parse_args example_services example_args example_world) = Inr ()"
    by (simp add: example_defs parse_args_def resolve_args_def select_tissues_def isdir_def
        makedirs_def ancestors_out generate_mask_def path_join_def Let_def List.map_filter_simps)
  obtain y w2 where gm: "generate_mask example_services (r_dicom_path r) (r_save_path r)
      (r_tissue_strs r) (r_dicom_ext r) (r_num_echos r) w1 = (y, w2)"
    by (metis surj_pair)
  from p res gm obtain masks where y: "y = Inr masks"
    by (cases y) (simp_all add: parse_args_def)
  from c [rule_format, of r w1 masks w2] res gm y
  have w2: "snd (parse_args example_services example_args example_world) = w2"
    "map fst (writes w2) = map fst (writes example_world) @
              map (mask_path ''/out'') (select_tissues example_services example_args)"
    "files w2 = files example_world \<union>
              mask_path ''/out'' ` set (select_tissues example_services example_args)"
    by simp_all
  have sel: "select_tissues example_services example_args = [''femoral_cartilage'', ''meniscus'']"
    by (simp add: example_defs select_tissues_def List.map_filter_simps)
  have wr: "map fst (writes (snd (parse_args example_services example_args example_world))) =
     [''/out/femoral_cartilage.tiff'', ''/out/meniscus.tiff'']"
    by (simp only: w2)
       (simp add: sel writes_def example_world_def mask_path_def path_join_def)
  have fl: "files (snd (parse_args example_services example_args example_world)) =
     {''/out/femoral_cartilage.tiff'', ''/out/meniscus.tiff''}"
    by (simp only: w2) (auto simp: sel example_world_def mask_path_def path_join_def)
  show ?thesis
    by (intro conjI) (rule h1 h2 h3 h5 a p wr fl)+
qed

lemma parse_args_dess_t2_never_returns:
  assumes "arg_dess a" and "arg_t2 a"
  shows "fst (parse_args c a w) \<noteq> Inr ()"
proof (cases "resolve_args c a w")
  case (Pair x w1)
  show ?thesis
  proof (cases x)
    case (Inl e)
    with Pair show ?thesis by (simp add: parse_args_def)
  next
    case (Inr r)
    with Pair have res: "resolve_args c a w = (Inr r, w1)" by simp
    obtain y w2 where gm: "generate_mask c (r_dicom_path r) (r_save_path r) (r_tissue_strs r)
        (r_dicom_ext r) (r_num_echos r) w1 = (y, w2)"
      by (metis surj_pair)
    show ?thesis
    proof (cases y)
      case (Inl e)
      with res gm show ?thesis by (simp add: parse_args_def)
    next
      case (Inr masks)
      with gm parse_args_dess_t2 [OF res assms] show ?thesis by simp
    qed
  qed
qed

text \<open>
  Claim C1 fails on the code. With \<open>--dess\<close> and \<open>--t2\<close>, after the masks are
  written, line 152 calls the local boolean \<open>calculate_t2_maps\<close> of line 130 and raises
  a \<open>TypeError\<close>; the function \<open>calculate_t2_maps\<close> of line 45 is not entered (its
  progress line is never printed). Evaluated on the invocation
  \<open>-d /knee -s /out -f -m --dess --t2\<close>.
\<close>

theorem t2_call_raises_type_error:
  "arg_dess (example_args\<lparr>arg_dess := True, arg_t2 := True\<rparr>) \<and>
   arg_t2 (example_args\<lparr>arg_dess := True, arg_t2 := True\<rparr>) \<and>
   fst (parse_args example_services (example_args\<lparr>arg_dess := True, arg_t2 := True\<rparr>)
          example_world) = Inl bool_not_callable \<and>
   map fst (writes (snd (parse_args example_services
          (example_args\<lparr>arg_dess := True, arg_t2 := True\<rparr>) example_world))) =
     [''/out/femoral_cartilage.tiff'', ''/out/meniscus.tiff''] \<and>
   Print ''Calculating T2 map...'' \<notin>
     set (trace (snd (parse_args example_services
          (example_args\<lparr>arg_dess := True, arg_t2 := True\<rparr>) example_world)))"
  by (simp add: example_defs parse_args_def resolve_args_def select_tissues_def isdir_def
      makedirs_def ancestors_out generate_mask_def path_join_def Let_def List.map_filter_simps writes_def)

end
